theory Spec2Isabelle
  imports Complex_Main "HOL-Library.Sublist"
begin

section \<open>WingSCAD: \<open>txt_to_scad.py\<close>\<close>

text \<open>
  A shallow embedding of \<^verbatim>\<open>src/txt_to_scad/txt_to_scad.py\<close>. Text is a list of
  characters, one \<^typ>\<open>char\<close> per code point of the decoded file (code points below 256).
  The Python built-ins the script calls (\<^verbatim>\<open>str.strip\<close>, \<^verbatim>\<open>str.startswith\<close>,
  \<^verbatim>\<open>in\<close>, \<^verbatim>\<open>str.replace\<close>, \<^verbatim>\<open>str.split\<close>, \<^verbatim>\<open>float\<close>, the
  \<^verbatim>\<open>.6f\<close> format, \<^verbatim>\<open>str.join\<close>, \<^verbatim>\<open>open\<close>, iteration over a text file,
  \<^verbatim>\<open>print\<close>, \<^verbatim>\<open>sys.exit\<close>) are modelled by functions named after them, as CPython
  defines them.
\<close>

subsection \<open>String built-ins\<close>

text \<open>
  \<^verbatim>\<open>str.isspace\<close> for one character: tab, line feed, vertical tab, form feed, carriage
  return, the four separators U+001C to U+001F, space, U+0085 and U+00A0.
\<close>

definition isspace :: "char \<Rightarrow> bool" where
  "isspace c = (of_char c \<in> {9, 10, 11, 12, 13, 28, 29, 30, 31, 32, 133, 160 :: nat})"

definition lstrip :: "string \<Rightarrow> string" where
  "lstrip s = dropWhile isspace s"

definition rstrip :: "string \<Rightarrow> string" where
  "rstrip s = rev (dropWhile isspace (rev s))"

definition strip :: "string \<Rightarrow> string" where
  "strip s = rstrip (lstrip s)"

text \<open>\<^verbatim>\<open>line.startswith('#')\<close>.\<close>

definition startswith :: "string \<Rightarrow> string \<Rightarrow> bool" where
  "startswith s p = prefix p s"

text \<open>\<^verbatim>\<open>sub in s\<close>: \<open>sub\<close> occurs in \<open>s\<close> at some position.\<close>

fun contains :: "string \<Rightarrow> string \<Rightarrow> bool" where
  "contains [] sub = (sub = [])"
| "contains (c # cs) sub = (prefix sub (c # cs) \<or> contains cs sub)"

text \<open>\<^verbatim>\<open>s.replace(old, new)\<close> for single characters \<open>old\<close> and \<open>new\<close>.\<close>

definition replace :: "string \<Rightarrow> char \<Rightarrow> char \<Rightarrow> string" where
  "replace s old new = map (\<lambda>c. if c = old then new else c) s"

text \<open>
  \<^verbatim>\<open>s.split()\<close> with no argument: the maximal runs of non-whitespace characters, in
  order. \<open>split_from cur s\<close> scans \<open>s\<close> with the token read so far in \<open>cur\<close>.
\<close>

fun split_from :: "string \<Rightarrow> string \<Rightarrow> string list" where
  "split_from cur [] = (if cur = [] then [] else [cur])"
| "split_from cur (c # cs) =
     (if isspace c then (if cur = [] then split_from [] cs else cur # split_from [] cs)
      else split_from (cur @ [c]) cs)"

definition split :: "string \<Rightarrow> string list" where
  "split s = split_from [] s"

text \<open>\<^verbatim>\<open>sep.join(xs)\<close>.\<close>

fun join :: "string \<Rightarrow> string list \<Rightarrow> string" where
  "join sep [] = []"
| "join sep [x] = x"
| "join sep (x # y # ys) = x @ sep @ join sep (y # ys)"

subsection \<open>Reading a text file line by line\<close>

text \<open>
  \<^verbatim>\<open>open(infile)\<close> reads in text mode with universal newlines: \<^verbatim>\<open>\r\n\<close> and a lone
  \<^verbatim>\<open>\r\<close> arrive as \<^verbatim>\<open>\n\<close>. Iterating the file yields the text cut after every
  \<^verbatim>\<open>\n\<close>; each line keeps its \<^verbatim>\<open>\n\<close>, and a last line without one is yielded too.
\<close>

fun universal_newlines :: "string \<Rightarrow> string" where
  "universal_newlines [] = []"
| "universal_newlines (c # cs) =
     (if c = CHR 0x0D then
        (case cs of
           [] \<Rightarrow> [CHR 0x0A]
         | d # ds \<Rightarrow> if d = CHR 0x0A then CHR 0x0A # universal_newlines ds
                     else CHR 0x0A # universal_newlines cs)
      else c # universal_newlines cs)"

fun lines_from :: "string \<Rightarrow> string \<Rightarrow> string list" where
  "lines_from cur [] = (if cur = [] then [] else [cur])"
| "lines_from cur (c # cs) =
     (if c = CHR 0x0A then (cur @ [c]) # lines_from [] cs else lines_from (cur @ [c]) cs)"

definition file_lines :: "string \<Rightarrow> string list" where
  "file_lines text = lines_from [] (universal_newlines text)"

subsection \<open>Floating-point numbers\<close>

text \<open>
  A Python \<^verbatim>\<open>float\<close> is an IEEE 754 binary64 value: \<open>Finite neg m e\<close> is the number
  of magnitude \<open>m * 2\<^sup>e\<close>, negative when \<open>neg\<close> holds; there are two infinities and
  not-a-number.
\<close>

datatype pyfloat = Finite bool nat int | Infinity bool | NaN

definition isdigit :: "char \<Rightarrow> bool" where
  "isdigit c = (48 \<le> (of_char c :: nat) \<and> (of_char c :: nat) \<le> 57)"

definition digit_val :: "char \<Rightarrow> nat" where
  "digit_val c = of_char c - 48"

definition digits_val :: "string \<Rightarrow> nat" where
  "digits_val ds = foldl (\<lambda>n c. 10 * n + digit_val c) 0 ds"

definition tolower :: "char \<Rightarrow> char" where
  "tolower c = (if 65 \<le> (of_char c :: nat) \<and> (of_char c :: nat) \<le> 90
                then char_of (of_char c + 32 :: nat) else c)"

text \<open>
  Underscores may separate digits (\<^verbatim>\<open>1_000.5\<close>): each underscore must follow a digit
  and precede a digit. \<open>drop_underscores prev s\<close> returns \<open>s\<close> without them, with the
  character before \<open>s\<close> in \<open>prev\<close>; \<open>None\<close> is a misplaced underscore.
\<close>

fun drop_underscores :: "char \<Rightarrow> string \<Rightarrow> string option" where
  "drop_underscores prev [] = (if prev = CHR ''_'' then None else Some [])"
| "drop_underscores prev (c # cs) =
     (if c = CHR ''_'' then (if isdigit prev then drop_underscores c cs else None)
      else if prev = CHR ''_'' \<and> \<not> isdigit c then None
      else map_option ((#) c) (drop_underscores c cs))"

definition split_sign :: "string \<Rightarrow> bool \<times> string" where
  "split_sign s =
     (case s of
        [] \<Rightarrow> (False, [])
      | c # cs \<Rightarrow> if c = CHR ''-'' then (True, cs)
                  else if c = CHR ''+'' then (False, cs) else (False, s))"

text \<open>The exponent part: empty, or \<^verbatim>\<open>e\<close> or \<^verbatim>\<open>E\<close>, an optional sign and digits.\<close>

definition parse_exponent :: "string \<Rightarrow> int option" where
  "parse_exponent r =
     (case r of
        [] \<Rightarrow> Some 0
      | c # t \<Rightarrow>
          if c = CHR ''e'' \<or> c = CHR ''E'' then
            (case split_sign t of
               (neg, ds) \<Rightarrow>
                 if ds \<noteq> [] \<and> list_all isdigit ds
                 then Some (if neg then - int (digits_val ds) else int (digits_val ds))
                 else None)
          else None)"

text \<open>
  An unsigned decimal number: digits, an optional point and digits (at least one digit
  in all), an optional exponent. The result \<open>(d, k)\<close> stands for \<open>d * 10\<^sup>k\<close>.
\<close>

definition parse_decimal :: "string \<Rightarrow> (nat \<times> int) option" where
  "parse_decimal body =
     (let ip = takeWhile isdigit body;
          r1 = dropWhile isdigit body;
          fp = (case r1 of [] \<Rightarrow> [] | c # t \<Rightarrow> if c = CHR ''.'' then takeWhile isdigit t else []);
          r2 = (case r1 of [] \<Rightarrow> [] | c # t \<Rightarrow> if c = CHR ''.'' then dropWhile isdigit t else r1)
      in if ip = [] \<and> fp = [] then None
         else (case parse_exponent r2 of
                 None \<Rightarrow> None
               | Some ex \<Rightarrow> Some (digits_val (ip @ fp), ex - int (length fp))))"

text \<open>\<open>rdiv_even a b\<close> is the integer nearest to \<open>a / b\<close>, a tie going to the even one.\<close>

definition rdiv_even :: "nat \<Rightarrow> nat \<Rightarrow> nat" where
  "rdiv_even a b =
     (let q = a div b; r = a mod b
      in if 2 * r < b then q
         else if b < 2 * r then q + 1
         else if even q then q else q + 1)"

fun bit_length :: "nat \<Rightarrow> nat" where
  "bit_length n = (if n = 0 then 0 else Suc (bit_length (n div 2)))"

declare bit_length.simps [simp del]

text \<open>For positive \<open>num\<close> and \<open>den\<close>, the \<open>e\<close> with \<open>2\<^sup>e \<le> num / den < 2\<^sup>e\<^sup>+\<^sup>1\<close>.\<close>

definition floor_log2 :: "nat \<Rightarrow> nat \<Rightarrow> int" where
  "floor_log2 num den =
     (let e = int (bit_length num) - int (bit_length den)
      in if (if 0 \<le> e then den * 2 ^ nat e \<le> num else den \<le> num * 2 ^ nat (- e))
         then e else e - 1)"

text \<open>
  The binary64 value nearest to \<open>num / den\<close> (ties to even): 53 bits of mantissa,
  exponents down to that of the subnormals (the unit \<open>2\<close> to the \<open>-1074\<close>), and infinity
  when the rounded \<open>m * 2\<^sup>p\<close> reaches \<open>2\<close> to the \<open>1024\<close>, that is when \<open>m\<close> has
  more than \<open>1024 - p\<close> bits.
\<close>

definition to_double :: "bool \<Rightarrow> nat \<Rightarrow> nat \<Rightarrow> pyfloat" where
  "to_double neg num den =
     (if num = 0 then Finite neg 0 0
      else
        let e = floor_log2 num den;
            p = max e (- 1022) - 52;
            m = (if 0 \<le> p then rdiv_even num (den * 2 ^ nat p)
                 else rdiv_even (num * 2 ^ nat (- p)) den)
        in if 1024 < int (bit_length m) + p then Infinity neg else Finite neg m p)"

text \<open>
  \<^verbatim>\<open>float(s)\<close> for a string without surrounding whitespace; \<open>None\<close> is ValueError.
  After an optional sign, \<^verbatim>\<open>inf\<close>, \<^verbatim>\<open>infinity\<close> and \<^verbatim>\<open>nan\<close> are accepted in any
  letter case; anything else must be a decimal number.
\<close>

definition float :: "string \<Rightarrow> pyfloat option" where
  "float s =
     (case drop_underscores (CHR 0x00) s of
        None \<Rightarrow> None
      | Some t \<Rightarrow>
          (case split_sign t of
             (neg, body) \<Rightarrow>
               if map tolower body = ''inf'' \<or> map tolower body = ''infinity''
               then Some (Infinity neg)
               else if map tolower body = ''nan'' then Some NaN
               else (case parse_decimal body of
                       None \<Rightarrow> None
                     | Some (d, k) \<Rightarrow>
                         Some (if 0 \<le> k then to_double neg (d * 10 ^ nat k) 1
                               else to_double neg d (10 ^ nat (- k))))))"

subsection \<open>Formatting with \<^verbatim>\<open>.6f\<close>\<close>

definition digit_char :: "nat \<Rightarrow> char" where
  "digit_char d = char_of (48 + d)"

fun show_nat :: "nat \<Rightarrow> string" where
  "show_nat n = (if n < 10 then [digit_char n] else show_nat (n div 10) @ [digit_char (n mod 10)])"

declare show_nat.simps [simp del]

fun digits_fixed :: "nat \<Rightarrow> nat \<Rightarrow> string" where
  "digits_fixed 0 n = []"
| "digits_fixed (Suc k) n = digits_fixed k (n div 10) @ [digit_char (n mod 10)]"

text \<open>The magnitude times \<open>10\<^sup>6\<close>, rounded to the nearest integer, ties to even.\<close>

definition scaled6 :: "nat \<Rightarrow> int \<Rightarrow> nat" where
  "scaled6 m e =
     (if 0 \<le> e then m * 2 ^ nat e * 10 ^ 6 else rdiv_even (m * 10 ^ 6) (2 ^ nat (- e)))"

text \<open>
  \<^verbatim>\<open>f"{x:.6f}"\<close>: a minus sign when the sign bit is set, the integer part, a point and
  six digits; infinities and not-a-number are spelled out, not-a-number without sign.
\<close>

fun format_6f :: "pyfloat \<Rightarrow> string" where
  "format_6f (Finite neg m e) =
     (if neg then ''-'' else []) @ show_nat (scaled6 m e div 10 ^ 6) @ ''.''
       @ digits_fixed 6 (scaled6 m e mod 10 ^ 6)"
| "format_6f (Infinity neg) = (if neg then ''-inf'' else ''inf'')"
| "format_6f NaN = ''nan''"

subsection \<open>The script\<close>

datatype exn = OSError | ValueError | SystemExit nat

datatype event = OpenRead string | OpenWrite string | WriteText string string

text \<open>
  The part of the world the script touches: the text of each existing file, which paths
  may be opened for reading and for writing, the lines printed to standard output, and the
  file operations attempted so far, oldest first.
\<close>

record world =
  files :: "string \<rightharpoonup> string"
  may_read :: "string \<Rightarrow> bool"
  may_write :: "string \<Rightarrow> bool"
  stdout :: "string list"
  trace :: "event list"

text \<open>\<^verbatim>\<open>open(path)\<close>, and the text the file then yields.\<close>

definition open_read :: "world \<Rightarrow> string \<Rightarrow> (exn + string) \<times> world" where
  "open_read w path =
     (let w' = w\<lparr>trace := trace w @ [OpenRead path]\<rparr>
      in case files w path of
           None \<Rightarrow> (Inl OSError, w')
         | Some text \<Rightarrow> if may_read w path then (Inr text, w') else (Inl OSError, w'))"

text \<open>\<^verbatim>\<open>open(path, 'w')\<close>: creates the file or truncates it.\<close>

definition open_write :: "world \<Rightarrow> string \<Rightarrow> (exn + unit) \<times> world" where
  "open_write w path =
     (let w' = w\<lparr>trace := trace w @ [OpenWrite path]\<rparr>
      in if may_write w path then (Inr (), w'\<lparr>files := (files w')(path \<mapsto> [])\<rparr>)
         else (Inl OSError, w'))"

text \<open>
  \<^verbatim>\<open>f.write(s)\<close> on the file opened at \<open>path\<close>. The file holds the text as the
  script wrote it; how the platform encodes a line break on disk is left out.
\<close>

definition file_write :: "world \<Rightarrow> string \<Rightarrow> string \<Rightarrow> world" where
  "file_write w path s =
     w\<lparr>files := (files w)(path \<mapsto> (case files w path of None \<Rightarrow> [] | Some old \<Rightarrow> old) @ s),
       trace := trace w @ [WriteText path s]\<rparr>"

definition print :: "world \<Rightarrow> string \<Rightarrow> world" where
  "print w s = w\<lparr>stdout := stdout w @ [s]\<rparr>"

text \<open>\<^verbatim>\<open>map(float, parts[:2])\<close>, evaluated left to right; the first failure raises.\<close>

fun map_float :: "string list \<Rightarrow> exn + pyfloat list" where
  "map_float [] = Inr []"
| "map_float (t # ts) =
     (case float t of
        None \<Rightarrow> Inl ValueError
      | Some x \<Rightarrow> (case map_float ts of Inl e \<Rightarrow> Inl e | Inr xs \<Rightarrow> Inr (x # xs)))"

text \<open>
  The body of the \<^verbatim>\<open>for\<close> loop on one line: \<open>Inr None\<close> is \<^verbatim>\<open>continue\<close>,
  \<open>Inr (Some p)\<close> is \<^verbatim>\<open>pts.append(p)\<close>, \<open>Inl\<close> an exception.
\<close>

definition loop_body :: "string \<Rightarrow> exn + string option" where
  "loop_body line0 =
     (let line = strip line0
      in if line = [] \<or> startswith line ''#'' \<or> contains line ''...'' then Inr None
         else
           let parts = split (replace line CHR '','' CHR '' '')
           in if length parts < 2 then Inr None
              else (case map_float (take 2 parts) of
                      Inl e \<Rightarrow> Inl e
                    | Inr [x, y] \<Rightarrow>
                        Inr (Some (''    ['' @ format_6f x @ '', '' @ format_6f y @ '']''))
                    | Inr _ \<Rightarrow> Inl ValueError))"

text \<open>The \<^verbatim>\<open>for\<close> loop over the remaining lines, with \<^verbatim>\<open>pts\<close> so far.\<close>

fun read_points :: "string list \<Rightarrow> string list \<Rightarrow> exn + string list" where
  "read_points pts [] = Inr pts"
| "read_points pts (l # ls) =
     (case loop_body l of
        Inl e \<Rightarrow> Inl e
      | Inr None \<Rightarrow> read_points pts ls
      | Inr (Some p) \<Rightarrow> read_points (pts @ [p]) ls)"

definition txt_to_scad :: "world \<Rightarrow> string \<Rightarrow> string \<Rightarrow> string \<Rightarrow> (exn + unit) \<times> world" where
  "txt_to_scad w infile varname outfile =
     (case open_read w infile of
        (Inl e, w1) \<Rightarrow> (Inl e, w1)
      | (Inr text, w1) \<Rightarrow>
          (case read_points [] (file_lines text) of
             Inl e \<Rightarrow> (Inl e, w1)
           | Inr pts \<Rightarrow>
               (case open_write w1 outfile of
                  (Inl e, w2) \<Rightarrow> (Inl e, w2)
                | (Inr u, w2) \<Rightarrow>
                    let w3 = file_write w2 outfile (''// Auto-generated from '' @ infile @ [CHR 0x0A]);
                        w4 = file_write w3 outfile (varname @ '' = ['' @ [CHR 0x0A]);
                        w5 = file_write w4 outfile (join ('','' @ [CHR 0x0A]) pts);
                        w6 = file_write w5 outfile ([CHR 0x0A] @ ''];'' @ [CHR 0x0A])
                    in (Inr (), w6))))"

text \<open>The \<^verbatim>\<open>__main__\<close> block; \<open>argv\<close> is \<^verbatim>\<open>sys.argv\<close>, the script's name first.\<close>

definition main :: "string list \<Rightarrow> world \<Rightarrow> (exn + unit) \<times> world" where
  "main argv w =
     (if length argv \<noteq> 4
      then (Inl (SystemExit 1),
            print w ''Usage: txt_to_scad.py input.txt varname output.scad'')
      else txt_to_scad w (argv ! 1) (argv ! 2) (argv ! 3))"

text \<open>The exit status of the process: 0 on return, 1 on an uncaught exception.\<close>

fun exit_status :: "exn + unit \<Rightarrow> nat" where
  "exit_status (Inr u) = 0"
| "exit_status (Inl (SystemExit n)) = n"
| "exit_status (Inl e) = 1"

subsection \<open>The specification's reading of a line and of the output\<close>

text \<open>
  The definitions of this subsection follow the words of the specification, not the code;
  the theorems below compare them with the script.

  A line is skipped if it is empty after stripping, or its first character is \<^verbatim>\<open>#\<close>,
  or it contains the literal substring \<^verbatim>\<open>...\<close>.
\<close>

definition spec_skipped :: "string \<Rightarrow> bool" where
  "spec_skipped l =
     (strip l = [] \<or> (strip l \<noteq> [] \<and> hd (strip l) = CHR ''#'') \<or> contains (strip l) ''...'')"

text \<open>The tokens of a line: every comma replaced with a space, then split on whitespace.\<close>

definition spec_tokens :: "string \<Rightarrow> string list" where
  "spec_tokens l = split (replace (strip l) CHR '','' CHR '' '')"

text \<open>
  The coordinate a line contributes: none if the line is skipped or has fewer than two
  tokens, otherwise its first two tokens parsed as numbers.
\<close>

definition spec_coordinate :: "string \<Rightarrow> (pyfloat \<times> pyfloat) option" where
  "spec_coordinate l =
     (if spec_skipped l then None
      else (case spec_tokens l of
              t1 # t2 # rest \<Rightarrow>
                (case float t1 of
                   None \<Rightarrow> None
                 | Some x \<Rightarrow> (case float t2 of None \<Rightarrow> None | Some y \<Rightarrow> Some (x, y)))
            | _ \<Rightarrow> None))"

text \<open>The retained coordinates, in the order of their originating lines.\<close>

definition spec_retained :: "string list \<Rightarrow> (pyfloat \<times> pyfloat) list" where
  "spec_retained ls = List.map_filter spec_coordinate ls"

text \<open>One coordinate as a pair-line: four spaces, then \<^verbatim>\<open>[x, y]\<close>.\<close>

definition spec_pair_line :: "pyfloat \<times> pyfloat \<Rightarrow> string" where
  "spec_pair_line c = ''    ['' @ format_6f (fst c) @ '', '' @ format_6f (snd c) @ '']''"

text \<open>
  The array body: each pair-line except the last followed by a comma and a line break,
  the last by neither; empty when there is no pair-line.
\<close>

definition spec_body :: "string list \<Rightarrow> string" where
  "spec_body ps =
     (if ps = [] then []
      else concat (map (\<lambda>p. p @ '',\<newline>'') (butlast ps)) @ last ps)"

text \<open>
  The whole file: the comment line, the line opening the array, the body, and the closing
  line \<^verbatim>\<open>];\<close> on a line of its own.
\<close>

definition spec_output :: "string \<Rightarrow> string \<Rightarrow> (pyfloat \<times> pyfloat) list \<Rightarrow> string" where
  "spec_output sourcePath variableName cs =
     ''// Auto-generated from '' @ sourcePath @ ''\<newline>''
       @ variableName @ '' = [\<newline>''
       @ spec_body (map spec_pair_line cs)
       @ ''\<newline>];\<newline>''"

text \<open>
  A printed component has six decimals when it ends in a point followed by exactly six
  digits.
\<close>

definition six_decimals :: "string \<Rightarrow> bool" where
  "six_decimals s =
     (7 \<le> length s \<and> s ! (length s - 7) = CHR ''.'' \<and> list_all isdigit (drop (length s - 6) s))"

text \<open>
  The number a printed component shows, in millionths: its digits read as one decimal
  numeral, sign and point left out (\<^verbatim>\<open>12.345678\<close> gives 12345678).
\<close>

definition printed_micro :: "string \<Rightarrow> nat" where
  "printed_micro s = digits_val (filter isdigit s)"

text \<open>The magnitude of the number that \<open>Finite neg m e\<close> stands for.\<close>

definition magnitude :: "nat \<Rightarrow> int \<Rightarrow> real" where
  "magnitude m e = (if 0 \<le> e then real m * 2 ^ nat e else real m / 2 ^ nat (- e))"

section \<open>The loop body and the loop\<close>

lemma loop_body_skipped: "spec_skipped l \<Longrightarrow> loop_body l = Inr None"
  by (cases "strip l") (auto simp: loop_body_def spec_skipped_def startswith_def Let_def)

lemma startswith_hash: "startswith s ''#'' \<longleftrightarrow> (s \<noteq> [] \<and> hd s = CHR ''#'')"
  by (cases s) (auto simp: startswith_def)

lemma loop_body_few: "length (spec_tokens l) < 2 \<Longrightarrow> loop_body l = Inr None"
  by (simp add: loop_body_def spec_tokens_def Let_def)

lemma loop_body_kept:
  assumes "\<not> spec_skipped l" and "spec_tokens l = t1 # t2 # rest"
  shows "loop_body l =
           (case float t1 of
              None \<Rightarrow> Inl ValueError
            | Some x \<Rightarrow> (case float t2 of
                          None \<Rightarrow> Inl ValueError
                        | Some y \<Rightarrow> Inr (Some (spec_pair_line (x, y)))))"
  using assms
  by (auto simp: loop_body_def spec_skipped_def spec_tokens_def startswith_hash Let_def
      spec_pair_line_def split: option.splits sum.splits)

lemma loop_body_coordinate:
  "loop_body l = (if spec_skipped l \<or> length (spec_tokens l) < 2 then Inr None
                  else (case spec_coordinate l of None \<Rightarrow> Inl ValueError
                        | Some c \<Rightarrow> Inr (Some (spec_pair_line c))))"
proof (cases "spec_skipped l \<or> length (spec_tokens l) < 2")
  case True
  then show ?thesis using loop_body_skipped loop_body_few by auto
next
  case False
  then obtain t1 t2 rest where t: "spec_tokens l = t1 # t2 # rest"
    by (cases "spec_tokens l"; cases "tl (spec_tokens l)") auto
  from False have k: "\<not> spec_skipped l" by simp
  show ?thesis using False loop_body_kept [OF k t]
    by (simp add: spec_coordinate_def t split: option.splits)
qed

lemma read_points_retained:
  "read_points acc ls = Inr pts \<Longrightarrow> pts = acc @ map spec_pair_line (spec_retained ls)"
proof (induction ls arbitrary: acc)
  case Nil
  then show ?case by (simp add: spec_retained_def)
next
  case (Cons l ls)
  show ?case
  proof (cases "loop_body l")
    case (Inl e)
    with Cons.prems show ?thesis by simp
  next
    case (Inr r)
    show ?thesis
    proof (cases r)
      case None
      with Inr have "spec_coordinate l = None"
        by (auto simp: loop_body_coordinate spec_coordinate_def split: if_splits option.splits list.splits)
      with Cons None Inr show ?thesis by (simp add: spec_retained_def)
    next
      case (Some p)
      with Inr obtain c where "spec_coordinate l = Some c" "p = spec_pair_line c"
        by (auto simp: loop_body_coordinate split: if_splits option.splits)
      then show ?thesis
        using Cons.IH [of "acc @ [p]"] Cons.prems Some Inr by (simp add: spec_retained_def)
    qed
  qed
qed

lemma join_spec_body: "join '',\<newline>'' ps = spec_body ps"
  by (induction "'',\<newline>''" ps rule: join.induct) (auto simp: spec_body_def)

section \<open>Evaluation on concrete inputs\<close>

text \<open>Rules with which the simplifier runs the definitions on literals.\<close>

lemma digit_char_eval:
  "digit_char 0 = CHR ''0''" "digit_char 1 = CHR ''1''" "digit_char 2 = CHR ''2''"
  "digit_char 3 = CHR ''3''" "digit_char 4 = CHR ''4''" "digit_char 5 = CHR ''5''"
  "digit_char 6 = CHR ''6''" "digit_char 7 = CHR ''7''" "digit_char 8 = CHR ''8''"
  "digit_char 9 = CHR ''9''" "digit_char (Suc 0) = CHR ''1''"
  by code_simp+

lemma digits_fixed_6:
  "digits_fixed 6 n =
     [digit_char (n div 100000 mod 10), digit_char (n div 10000 mod 10),
      digit_char (n div 1000 mod 10), digit_char (n div 100 mod 10),
      digit_char (n div 10 mod 10), digit_char (n mod 10)]"
proof -
  have "digits_fixed (Suc (Suc (Suc (Suc (Suc (Suc 0)))))) n =
     [digit_char (n div 100000 mod 10), digit_char (n div 10000 mod 10),
      digit_char (n div 1000 mod 10), digit_char (n div 100 mod 10),
      digit_char (n div 10 mod 10), digit_char (n mod 10)]"
    by (simp add: div_mult2_eq [symmetric])
  moreover have "(6::nat) = Suc (Suc (Suc (Suc (Suc (Suc 0)))))" by simp
  ultimately show ?thesis by metis
qed

lemmas eval_defs =
  isspace_def lstrip_def rstrip_def strip_def startswith_def replace_def split_def
  file_lines_def isdigit_def digit_val_def digits_val_def tolower_def split_sign_def
  parse_exponent_def parse_decimal_def rdiv_even_def floor_log2_def to_double_def float_def
  scaled6_def digits_fixed_6 digit_char_eval loop_body_def Let_def
  bit_length.simps show_nat.simps
  spec_skipped_def spec_tokens_def spec_coordinate_def spec_retained_def spec_pair_line_def
  spec_body_def spec_output_def

section \<open>The conversion as a whole\<close>

text \<open>
  The text written to the destination by a successful run: the four \<^verbatim>\<open>f.write\<close>
  calls on the freshly truncated file.
\<close>

lemma txt_to_scad_unfold:
  "txt_to_scad w infile varname outfile =
     (case files w infile of
        None \<Rightarrow> (Inl OSError, w\<lparr>trace := trace w @ [OpenRead infile]\<rparr>)
      | Some text \<Rightarrow>
          if \<not> may_read w infile then (Inl OSError, w\<lparr>trace := trace w @ [OpenRead infile]\<rparr>)
          else (case read_points [] (file_lines text) of
                  Inl e \<Rightarrow> (Inl e, w\<lparr>trace := trace w @ [OpenRead infile]\<rparr>)
                | Inr pts \<Rightarrow>
                    if \<not> may_write w outfile
                    then (Inl OSError, w\<lparr>trace := trace w @ [OpenRead infile, OpenWrite outfile]\<rparr>)
                    else (Inr (),
                          w\<lparr>files := (files w)(outfile \<mapsto>
                               ''// Auto-generated from '' @ infile @ ''\<newline>'' @ varname
                                 @ '' = [\<newline>'' @ join '',\<newline>'' pts @ ''\<newline>];\<newline>''),
                            trace := trace w @
                              [OpenRead infile, OpenWrite outfile,
                               WriteText outfile (''// Auto-generated from '' @ infile @ ''\<newline>''),
                               WriteText outfile (varname @ '' = [\<newline>''),
                               WriteText outfile (join '',\<newline>'' pts),
                               WriteText outfile ''\<newline>];\<newline>'']\<rparr>)))"
  by (simp add: txt_to_scad_def open_read_def open_write_def file_write_def Let_def
      split: option.splits sum.splits)

text \<open>
  C1. After every successful run, the destination holds the comment line naming the
  source path, the line opening the array under the variable name, one pair-line per
  retained coordinate in the order of the originating input lines, each but the last
  followed by a comma and a line break, and the closing line.
\<close>

theorem C1_output_layout:
  assumes "txt_to_scad w infile varname outfile = (Inr u, w')"
  shows "\<exists>text. files w infile = Some text \<and>
           files w' outfile = Some (spec_output infile varname (spec_retained (file_lines text)))"
proof -
  from assms obtain src pts where t: "files w infile = Some src"
    and r: "read_points [] (file_lines src) = Inr pts"
    and o: "files w' outfile = Some (''// Auto-generated from '' @ infile @ ''\<newline>'' @ varname
              @ '' = [\<newline>'' @ join '',\<newline>'' pts @ ''\<newline>];\<newline>'')"
    by (auto simp: txt_to_scad_unfold split: option.splits sum.splits if_splits)
  from read_points_retained [OF r] have "pts = map spec_pair_line (spec_retained (file_lines src))"
    by simp
  with o t show ?thesis by (simp add: spec_output_def join_spec_body)
qed

theorem C1_output_layout_witness:
  "fst (txt_to_scad
          \<lparr>files = [''input.txt'' \<mapsto> ''# header\<newline>1, 2\<newline>3 4\<newline>...\<newline>5.5 6.25 extra\<newline>''],
           may_read = (\<lambda>p. True), may_write = (\<lambda>p. True), stdout = [], trace = []\<rparr>
          ''input.txt'' ''pts'' ''out.scad'') = Inr ()
   \<and> files (snd (txt_to_scad
          \<lparr>files = [''input.txt'' \<mapsto> ''# header\<newline>1, 2\<newline>3 4\<newline>...\<newline>5.5 6.25 extra\<newline>''],
           may_read = (\<lambda>p. True), may_write = (\<lambda>p. True), stdout = [], trace = []\<rparr>
          ''input.txt'' ''pts'' ''out.scad'')) ''out.scad''
     = Some ''// Auto-generated from input.txt\<newline>pts = [\<newline>    [1.000000, 2.000000],\<newline>    [3.000000, 4.000000],\<newline>    [5.500000, 6.250000]\<newline>];\<newline>''"
  (is "fst (txt_to_scad ?w ?i ?v ?o) = _ \<and> _")
proof -
  have "read_points [] (file_lines ''# header\<newline>1, 2\<newline>3 4\<newline>...\<newline>5.5 6.25 extra\<newline>'')
      = Inr [''    [1.000000, 2.000000]'', ''    [3.000000, 4.000000]'', ''    [5.500000, 6.250000]'']"
    by (simp add: eval_defs)
  then have f: "fst (txt_to_scad ?w ?i ?v ?o) = Inr ()"
    by (simp add: txt_to_scad_unfold)
  then have h: "txt_to_scad ?w ?i ?v ?o = (Inr (), snd (txt_to_scad ?w ?i ?v ?o))"
    by (simp add: prod_eq_iff)
  from C1_output_layout [OF h] obtain src where t: "files ?w ?i = Some src"
    and o: "files (snd (txt_to_scad ?w ?i ?v ?o)) ?o
              = Some (spec_output ?i ?v (spec_retained (file_lines src)))"
    by blast
  from t have "src = ''# header\<newline>1, 2\<newline>3 4\<newline>...\<newline>5.5 6.25 extra\<newline>''"
    by simp
  moreover have "spec_output ?i ?v
      (spec_retained (file_lines ''# header\<newline>1, 2\<newline>3 4\<newline>...\<newline>5.5 6.25 extra\<newline>''))
    = ''// Auto-generated from input.txt\<newline>pts = [\<newline>    [1.000000, 2.000000],\<newline>    [3.000000, 4.000000],\<newline>    [5.500000, 6.250000]\<newline>];\<newline>''"
    by (simp add: eval_defs)
  ultimately show ?thesis using f o by simp
qed


section \<open>The command line\<close>

text \<open>
  C8. With an argument count other than three (\<^verbatim>\<open>sys.argv\<close> of a length other than
  four) the program prints the usage message to standard output and exits with status 1,
  without any file operation; with exactly three arguments it runs the conversion on them.
\<close>

theorem C8_usage:
  "(length argv \<noteq> 4 \<longrightarrow>
      main argv w = (Inl (SystemExit 1),
                     w\<lparr>stdout := stdout w @ [''Usage: txt_to_scad.py input.txt varname output.scad'']\<rparr>)
      \<and> exit_status (fst (main argv w)) \<noteq> 0
      \<and> trace (snd (main argv w)) = trace w
      \<and> files (snd (main argv w)) = files w)
   \<and> (length argv = 4 \<longrightarrow> main argv w = txt_to_scad w (argv ! 1) (argv ! 2) (argv ! 3))"
  by (simp add: main_def print_def)

theorem C8_usage_witness:
  "length [''txt_to_scad.py'', ''input.txt''] \<noteq> 4
   \<and> exit_status (fst (main [''txt_to_scad.py'', ''input.txt'']
         \<lparr>files = [''input.txt'' \<mapsto> ''1 2\<newline>''], may_read = (\<lambda>p. True),
          may_write = (\<lambda>p. True), stdout = [], trace = []\<rparr>)) = 1
   \<and> stdout (snd (main [''txt_to_scad.py'', ''input.txt'']
         \<lparr>files = [''input.txt'' \<mapsto> ''1 2\<newline>''], may_read = (\<lambda>p. True),
          may_write = (\<lambda>p. True), stdout = [], trace = []\<rparr>))
       = [''Usage: txt_to_scad.py input.txt varname output.scad'']
   \<and> trace (snd (main [''txt_to_scad.py'', ''input.txt'']
         \<lparr>files = [''input.txt'' \<mapsto> ''1 2\<newline>''], may_read = (\<lambda>p. True),
          may_write = (\<lambda>p. True), stdout = [], trace = []\<rparr>)) = []
   \<and> length [''txt_to_scad.py'', ''input.txt'', ''pts'', ''out.scad''] = 4
   \<and> main [''txt_to_scad.py'', ''input.txt'', ''pts'', ''out.scad'']
         \<lparr>files = [''input.txt'' \<mapsto> ''1 2\<newline>''], may_read = (\<lambda>p. True),
          may_write = (\<lambda>p. True), stdout = [], trace = []\<rparr>
       = txt_to_scad
         \<lparr>files = [''input.txt'' \<mapsto> ''1 2\<newline>''], may_read = (\<lambda>p. True),
          may_write = (\<lambda>p. True), stdout = [], trace = []\<rparr> ''input.txt'' ''pts'' ''out.scad''"
  using C8_usage [of "[''txt_to_scad.py'', ''input.txt'']"
      "\<lparr>files = [''input.txt'' \<mapsto> ''1 2\<newline>''], may_read = (\<lambda>p. True),
        may_write = (\<lambda>p. True), stdout = [], trace = []\<rparr>"]
    C8_usage [of "[''txt_to_scad.py'', ''input.txt'', ''pts'', ''out.scad'']"
      "\<lparr>files = [''input.txt'' \<mapsto> ''1 2\<newline>''], may_read = (\<lambda>p. True),
        may_write = (\<lambda>p. True), stdout = [], trace = []\<rparr>"]
  by simp

section \<open>Lines that contribute nothing\<close>

lemma read_points_drop_line:
  "loop_body l = Inr None \<Longrightarrow> read_points pts (pre @ l # post) = read_points pts (pre @ post)"
  by (induction pre arbitrary: pts) (auto split: sum.splits option.splits)

lemma strip_whitespace_only:
  assumes "list_all isspace l"
  shows "strip l = []"
proof -
  from assms have d: "dropWhile isspace l = []" by (induction l) auto
  show ?thesis unfolding strip_def lstrip_def rstrip_def d by simp
qed

lemma contains_iff: "contains s sub \<longleftrightarrow> (\<exists>a b. s = a @ sub @ b)"
proof (induction s)
  case Nil
  then show ?case by auto
next
  case (Cons c cs)
  have "(\<exists>a b. c # cs = a @ sub @ b) \<longleftrightarrow> prefix sub (c # cs) \<or> (\<exists>a b. cs = a @ sub @ b)"
  proof
    assume "\<exists>a b. c # cs = a @ sub @ b"
    then obtain a b where ab: "c # cs = a @ sub @ b" by blast
    show "prefix sub (c # cs) \<or> (\<exists>a b. cs = a @ sub @ b)"
    proof (cases a)
      case Nil
      with ab show ?thesis by (auto simp: prefix_def)
    next
      case (Cons x xs)
      with ab have "cs = xs @ sub @ b" by simp
      then show ?thesis by blast
    qed
  next
    assume "prefix sub (c # cs) \<or> (\<exists>a b. cs = a @ sub @ b)"
    then show "\<exists>a b. c # cs = a @ sub @ b"
    proof
      assume "prefix sub (c # cs)"
      then obtain b where "c # cs = sub @ b" by (auto simp: prefix_def)
      then have "c # cs = [] @ sub @ b" by simp
      then show ?thesis by blast
    next
      assume "\<exists>a b. cs = a @ sub @ b"
      then obtain a b where "cs = a @ sub @ b" by blast
      then have "c # cs = (c # a) @ sub @ b" by simp
      then show ?thesis by blast
    qed
  qed
  with Cons show ?case by simp
qed

lemma strip_keeps_dots:
  assumes "contains l ''...''"
  shows "contains (strip l) ''...''"
proof -
  from assms obtain a b where l: "l = a @ ''...'' @ b" by (auto simp: contains_iff)
  have nd: "\<not> isspace CHR ''.''" by (simp add: isspace_def)
  have "lstrip l = dropWhile isspace a @ ''...'' @ b"
    using nd by (simp add: l lstrip_def dropWhile_append3)
  moreover have "rev (dropWhile isspace a @ ''...'' @ b) = rev b @ ''...'' @ rev (dropWhile isspace a)"
    by simp
  moreover have "dropWhile isspace (rev b @ ''...'' @ rev (dropWhile isspace a))
      = dropWhile isspace (rev b) @ ''...'' @ rev (dropWhile isspace a)"
    using nd by (simp add: dropWhile_append3)
  ultimately have "strip l = dropWhile isspace a @ ''...'' @ rev (dropWhile isspace (rev b))"
    by (simp add: strip_def rstrip_def)
  then show ?thesis by (auto simp: contains_iff)
qed

text \<open>
  C2. A line that is empty after stripping (a whitespace-only line among them), or whose
  first character after stripping is \<^verbatim>\<open>#\<close>, or that contains \<^verbatim>\<open>...\<close>, makes the loop
  body \<^verbatim>\<open>continue\<close>: no exception, and the loop over any input gives the same result
  with the line as without it, whatever else the line holds.
\<close>

theorem C2_filtered_lines:
  assumes "list_all isspace l \<or> strip l = [] \<or> (strip l \<noteq> [] \<and> hd (strip l) = CHR ''#'')
           \<or> contains (strip l) ''...'' \<or> contains l ''...''"
  shows "loop_body l = Inr None
         \<and> read_points pts (pre @ l # post) = read_points pts (pre @ post)"
proof -
  from assms have "spec_skipped l"
    using strip_whitespace_only strip_keeps_dots by (auto simp: spec_skipped_def)
  then have "loop_body l = Inr None" by (rule loop_body_skipped)
  then show ?thesis by (simp add: read_points_drop_line)
qed

theorem C2_filtered_lines_witness:
  "contains (strip ''  1 2 ... 3 4\<newline>'') ''...''
   \<and> loop_body ''  1 2 ... 3 4\<newline>'' = Inr None
   \<and> read_points [] [''1 2\<newline>'', ''  1 2 ... 3 4\<newline>'', ''3 4\<newline>'']
       = read_points [] [''1 2\<newline>'', ''3 4\<newline>'']
   \<and> strip ''# abc 1\<newline>'' \<noteq> [] \<and> hd (strip ''# abc 1\<newline>'') = CHR ''#''
   \<and> loop_body ''# abc 1\<newline>'' = Inr None
   \<and> list_all isspace '' \<newline>'' \<and> loop_body '' \<newline>'' = Inr None"
proof -
  have a: "contains (strip ''  1 2 ... 3 4\<newline>'') ''...''"
    by (simp add: eval_defs)
  have b: "strip ''# abc 1\<newline>'' \<noteq> [] \<and> hd (strip ''# abc 1\<newline>'') = CHR ''#''"
    by (simp add: eval_defs)
  have c: "list_all isspace '' \<newline>''"
    by (simp add: eval_defs)
  show ?thesis
    using a b c
      C2_filtered_lines [of "''  1 2 ... 3 4\<newline>''" "[]" "[''1 2\<newline>'']" "[''3 4\<newline>'']"]
      C2_filtered_lines [of "''# abc 1\<newline>''" "[]" "[]" "[]"]
      C2_filtered_lines [of "'' \<newline>''" "[]" "[]" "[]"]
    by simp
qed

text \<open>
  C5. A line with fewer than two tokens after comma-to-space normalisation makes the loop
  body \<^verbatim>\<open>continue\<close>: no exception, and the loop goes on with the next line as if the
  line were absent.
\<close>

theorem C5_too_few_tokens:
  assumes "length (spec_tokens l) < 2"
  shows "loop_body l = Inr None
         \<and> read_points pts (pre @ l # post) = read_points pts (pre @ post)"
  using assms by (simp add: loop_body_few read_points_drop_line)

theorem C5_too_few_tokens_witness:
  "\<not> spec_skipped ''42,\<newline>'' \<and> length (spec_tokens ''42,\<newline>'') < 2
   \<and> loop_body ''42,\<newline>'' = Inr None
   \<and> read_points [] [''1 2\<newline>'', ''42,\<newline>'', ''abc 5\<newline>'']
       = read_points [] [''1 2\<newline>'', ''abc 5\<newline>'']"
proof -
  have a: "\<not> spec_skipped ''42,\<newline>''" by (simp add: eval_defs)
  have b: "length (spec_tokens ''42,\<newline>'') < 2" by (simp add: eval_defs)
  show ?thesis
    using a b C5_too_few_tokens [OF b, of "[]" "[''1 2\<newline>'']" "[''abc 5\<newline>'']"]
    by simp
qed

section \<open>Kept lines and numeric tokens\<close>

text \<open>
  C3. On a kept line with at least two tokens the point is made of the first two tokens
  alone: if both parse, the line yields the pair-line of their values whatever the later
  tokens are; if one of them does not parse, the line raises ValueError whatever the later
  tokens are, numeric or not.
\<close>

theorem C3_first_two_tokens:
  assumes "\<not> spec_skipped l" and "spec_tokens l = t1 # t2 # rest"
  shows "(\<forall>x y. float t1 = Some x \<and> float t2 = Some y \<longrightarrow>
            loop_body l = Inr (Some (''    ['' @ format_6f x @ '', '' @ format_6f y @ '']'')))
         \<and> (float t1 = None \<or> float t2 = None \<longrightarrow> loop_body l = Inl ValueError)"
  using loop_body_kept [OF assms]
  by (auto simp: spec_pair_line_def split: option.splits)

theorem C3_first_two_tokens_witness:
  "\<not> spec_skipped ''1, 2 abc\<newline>'' \<and> spec_tokens ''1, 2 abc\<newline>'' = [''1'', ''2'', ''abc'']
   \<and> loop_body ''1, 2 abc\<newline>'' = Inr (Some ''    [1.000000, 2.000000]'')
   \<and> \<not> spec_skipped ''abc 1 2\<newline>'' \<and> spec_tokens ''abc 1 2\<newline>'' = [''abc'', ''1'', ''2'']
   \<and> float ''abc'' = None
   \<and> loop_body ''abc 1 2\<newline>'' = Inl ValueError"
proof -
  have a: "\<not> spec_skipped ''1, 2 abc\<newline>''" by (simp add: eval_defs)
  have b: "spec_tokens ''1, 2 abc\<newline>'' = [''1'', ''2'', ''abc'']" by (simp add: eval_defs)
  have c: "\<not> spec_skipped ''abc 1 2\<newline>''" by (simp add: eval_defs)
  have d: "spec_tokens ''abc 1 2\<newline>'' = [''abc'', ''1'', ''2'']" by (simp add: eval_defs)
  have f1: "float ''1'' = Some (Finite False 4503599627370496 (- 52))" by (simp add: eval_defs)
  have f2: "float ''2'' = Some (Finite False 4503599627370496 (- 51))" by (simp add: eval_defs)
  have f3: "float ''abc'' = None" by (simp add: eval_defs)
  have g1: "format_6f (Finite False 4503599627370496 (- 52)) = ''1.000000''"
    by (simp add: eval_defs)
  have g2: "format_6f (Finite False 4503599627370496 (- 51)) = ''2.000000''"
    by (simp add: eval_defs)
  show ?thesis
    using a b c d f1 f2 f3 g1 g2 C3_first_two_tokens [OF a b] C3_first_two_tokens [OF c d]
    by simp
qed

section \<open>Errors\<close>

lemma map_float_error: "map_float ts = Inl e \<Longrightarrow> e = ValueError"
  by (induction ts arbitrary: e) (auto split: option.splits sum.splits)

lemma loop_body_error: "loop_body l = Inl e \<Longrightarrow> e = ValueError"
  by (auto simp: loop_body_def Let_def dest: map_float_error
      split: if_splits sum.splits list.splits)

lemma read_points_error: "read_points pts ls = Inl e \<Longrightarrow> e = ValueError"
  by (induction ls arbitrary: pts) (auto dest: loop_body_error split: sum.splits option.splits)

lemma read_points_bad_line:
  "l \<in> set ls \<Longrightarrow> loop_body l = Inl ValueError \<Longrightarrow> read_points pts ls = Inl ValueError"
proof (induction ls arbitrary: pts)
  case Nil
  then show ?case by simp
next
  case (Cons a ls)
  show ?case
  proof (cases "loop_body a")
    case (Inl e)
    then show ?thesis using loop_body_error by auto
  next
    case (Inr r)
    with Cons.prems have "l \<in> set ls" by auto
    with Cons Inr show ?thesis by (auto split: option.splits)
  qed
qed

lemma read_points_all_skipped:
  "\<forall>l\<in>set ls. loop_body l = Inr None \<Longrightarrow> read_points pts ls = Inr pts"
  by (induction ls) auto

text \<open>
  C4. If the source can be read and holds a kept line with at least two tokens whose
  first two tokens do not both parse as numbers, the conversion ends with ValueError,
  uncaught: the only file operation of the run is the opening of the source, so the
  destination is neither opened nor created nor changed, and the process exits with
  status 1.
\<close>

theorem C4_parse_error_aborts:
  assumes "files w infile = Some src" and "may_read w infile"
    and "l \<in> set (file_lines src)"
    and "\<not> spec_skipped l" and "spec_tokens l = t1 # t2 # rest"
    and "float t1 = None \<or> float t2 = None"
  shows "txt_to_scad w infile varname outfile
           = (Inl ValueError, w\<lparr>trace := trace w @ [OpenRead infile]\<rparr>)
         \<and> files (snd (txt_to_scad w infile varname outfile)) = files w
         \<and> exit_status (fst (main [prog, infile, varname, outfile] w)) = 1"
proof -
  from loop_body_kept [OF assms(4,5)] assms(6) have "loop_body l = Inl ValueError"
    by (auto split: option.splits)
  with assms(3) have "read_points [] (file_lines src) = Inl ValueError"
    by (rule read_points_bad_line)
  with assms(1,2) have "txt_to_scad w infile varname outfile
      = (Inl ValueError, w\<lparr>trace := trace w @ [OpenRead infile]\<rparr>)"
    by (simp add: txt_to_scad_unfold)
  then show ?thesis by (simp add: main_def)
qed

theorem C4_parse_error_aborts_witness:
  "''abc 2.0\<newline>'' \<in> set (file_lines ''1 2\<newline>abc 2.0\<newline>3 4\<newline>'')
   \<and> \<not> spec_skipped ''abc 2.0\<newline>''
   \<and> spec_tokens ''abc 2.0\<newline>'' = [''abc'', ''2.0'']
   \<and> float ''abc'' = None
   \<and> fst (txt_to_scad
        \<lparr>files = [''input.txt'' \<mapsto> ''1 2\<newline>abc 2.0\<newline>3 4\<newline>'', ''out.scad'' \<mapsto> ''old''],
         may_read = (\<lambda>p. True), may_write = (\<lambda>p. True), stdout = [], trace = []\<rparr>
        ''input.txt'' ''pts'' ''out.scad'') = Inl ValueError
   \<and> files (snd (txt_to_scad
        \<lparr>files = [''input.txt'' \<mapsto> ''1 2\<newline>abc 2.0\<newline>3 4\<newline>'', ''out.scad'' \<mapsto> ''old''],
         may_read = (\<lambda>p. True), may_write = (\<lambda>p. True), stdout = [], trace = []\<rparr>
        ''input.txt'' ''pts'' ''out.scad'')) ''out.scad'' = Some ''old''
   \<and> trace (snd (txt_to_scad
        \<lparr>files = [''input.txt'' \<mapsto> ''1 2\<newline>abc 2.0\<newline>3 4\<newline>'', ''out.scad'' \<mapsto> ''old''],
         may_read = (\<lambda>p. True), may_write = (\<lambda>p. True), stdout = [], trace = []\<rparr>
        ''input.txt'' ''pts'' ''out.scad'')) = [OpenRead ''input.txt'']"
  (is "_ \<and> _ \<and> _ \<and> _ \<and> fst (txt_to_scad ?w ?i ?v ?o) = _ \<and> _")
proof -
  have a: "files ?w ?i = Some ''1 2\<newline>abc 2.0\<newline>3 4\<newline>''" by simp
  have b: "may_read ?w ?i" by simp
  have c: "''abc 2.0\<newline>'' \<in> set (file_lines ''1 2\<newline>abc 2.0\<newline>3 4\<newline>'')"
    by (simp add: eval_defs)
  have d: "\<not> spec_skipped ''abc 2.0\<newline>''" by (simp add: eval_defs)
  have e: "spec_tokens ''abc 2.0\<newline>'' = [''abc'', ''2.0'']" by (simp add: eval_defs)
  have f: "float ''abc'' = None" by (simp add: eval_defs)
  then have g: "float ''abc'' = None \<or> float ''2.0'' = None" by simp
  show ?thesis
    using c d e f C4_parse_error_aborts [OF a b c d e g, of ?v ?o "''txt_to_scad.py''"]
    by simp
qed

text \<open>
  C10. When the conversion ends with the numeric-parse error, or because the source
  cannot be opened, the world is as before except that the opening of the source has been
  attempted: every file, the destination among them, keeps its prior contents, and the
  destination was never opened.
\<close>

theorem C10_destination_untouched_on_error:
  assumes "txt_to_scad w infile varname outfile = (Inl e, w')"
    and "e = ValueError \<or> files w infile = None \<or> \<not> may_read w infile"
  shows "w' = w\<lparr>trace := trace w @ [OpenRead infile]\<rparr>
         \<and> files w' outfile = files w outfile
         \<and> OpenWrite outfile \<notin> set (drop (length (trace w)) (trace w'))"
proof -
  from assms have "w' = w\<lparr>trace := trace w @ [OpenRead infile]\<rparr>"
    by (auto simp: txt_to_scad_unfold split: option.splits sum.splits if_splits)
  then show ?thesis by simp
qed

theorem C10_destination_untouched_on_error_witness:
  "fst (txt_to_scad
        \<lparr>files = [''input.txt'' \<mapsto> ''1 2\<newline>3 x\<newline>'', ''out.scad'' \<mapsto> ''old''],
         may_read = (\<lambda>p. True), may_write = (\<lambda>p. True), stdout = [], trace = []\<rparr>
        ''input.txt'' ''pts'' ''out.scad'') = Inl ValueError
   \<and> files (snd (txt_to_scad
        \<lparr>files = [''input.txt'' \<mapsto> ''1 2\<newline>3 x\<newline>'', ''out.scad'' \<mapsto> ''old''],
         may_read = (\<lambda>p. True), may_write = (\<lambda>p. True), stdout = [], trace = []\<rparr>
        ''input.txt'' ''pts'' ''out.scad'')) ''out.scad'' = Some ''old''
   \<and> OpenWrite ''out.scad'' \<notin> set (trace (snd (txt_to_scad
        \<lparr>files = [''input.txt'' \<mapsto> ''1 2\<newline>3 x\<newline>'', ''out.scad'' \<mapsto> ''old''],
         may_read = (\<lambda>p. True), may_write = (\<lambda>p. True), stdout = [], trace = []\<rparr>
        ''input.txt'' ''pts'' ''out.scad'')))"
  (is "fst (txt_to_scad ?w ?i ?v ?o) = _ \<and> _")
proof -
  have "read_points [] (file_lines ''1 2\<newline>3 x\<newline>'') = Inl ValueError"
    by (simp add: eval_defs)
  then have f: "fst (txt_to_scad ?w ?i ?v ?o) = Inl ValueError"
    by (simp add: txt_to_scad_unfold)
  then have h: "txt_to_scad ?w ?i ?v ?o = (Inl ValueError, snd (txt_to_scad ?w ?i ?v ?o))"
    by (simp add: prod_eq_iff)
  have "ValueError = ValueError \<or> files ?w ?i = None \<or> \<not> may_read ?w ?i" by simp
  from C10_destination_untouched_on_error [OF h this] f show ?thesis by simp
qed

section \<open>Empty result and determinism\<close>

text \<open>
  C7. If the source can be read, the destination can be written and every line is
  skipped or has fewer than two tokens, the run succeeds and the destination holds the
  comment line followed by the declaration with an empty body: the variable name,
  \<^verbatim>\<open> = [\<close>, a line break, an empty line, and \<^verbatim>\<open>];\<close> with its line break.
\<close>

theorem C7_empty_array:
  assumes "files w infile = Some src" and "may_read w infile" and "may_write w outfile"
    and "\<forall>l\<in>set (file_lines src). spec_skipped l \<or> length (spec_tokens l) < 2"
  shows "fst (txt_to_scad w infile varname outfile) = Inr ()
         \<and> files (snd (txt_to_scad w infile varname outfile)) outfile
             = Some (''// Auto-generated from '' @ infile @ ''\<newline>''
                       @ (varname @ '' = [\<newline>\<newline>];\<newline>''))"
proof -
  from assms(4) have "\<forall>l\<in>set (file_lines src). loop_body l = Inr None"
    using loop_body_skipped loop_body_few by blast
  then have "read_points [] (file_lines src) = Inr []"
    by (rule read_points_all_skipped)
  with assms(1-3) show ?thesis by (simp add: txt_to_scad_unfold)
qed

theorem C7_empty_array_witness:
  "file_lines ''# only a comment\<newline>\<newline>7\<newline>'' = [''# only a comment\<newline>'', ''\<newline>'', ''7\<newline>'']
   \<and> fst (txt_to_scad
        \<lparr>files = [''input.txt'' \<mapsto> ''# only a comment\<newline>\<newline>7\<newline>''],
         may_read = (\<lambda>p. True), may_write = (\<lambda>p. True), stdout = [], trace = []\<rparr>
        ''input.txt'' ''pts'' ''out.scad'') = Inr ()
   \<and> files (snd (txt_to_scad
        \<lparr>files = [''input.txt'' \<mapsto> ''# only a comment\<newline>\<newline>7\<newline>''],
         may_read = (\<lambda>p. True), may_write = (\<lambda>p. True), stdout = [], trace = []\<rparr>
        ''input.txt'' ''pts'' ''out.scad'')) ''out.scad''
      = Some ''// Auto-generated from input.txt\<newline>pts = [\<newline>\<newline>];\<newline>''"
  (is "_ \<and> fst (txt_to_scad ?w ?i ?v ?o) = _ \<and> _")
proof -
  have a: "files ?w ?i = Some ''# only a comment\<newline>\<newline>7\<newline>''" by simp
  have b: "may_read ?w ?i" by simp
  have c: "may_write ?w ?o" by simp
  have l: "file_lines ''# only a comment\<newline>\<newline>7\<newline>'' = [''# only a comment\<newline>'', ''\<newline>'', ''7\<newline>'']"
    by (simp add: eval_defs)
  have d: "\<forall>l\<in>set (file_lines ''# only a comment\<newline>\<newline>7\<newline>'').
             spec_skipped l \<or> length (spec_tokens l) < 2"
    by (simp add: eval_defs)
  from l C7_empty_array [OF a b c d, of ?v] show ?thesis by simp
qed

lemma txt_to_scad_success:
  assumes "txt_to_scad w infile varname outfile = (Inr u, w')"
  obtains src pts where "files w infile = Some src"
    and "read_points [] (file_lines src) = Inr pts"
    and "files w' outfile = Some (''// Auto-generated from '' @ infile @ ''\<newline>'' @ varname
           @ '' = [\<newline>'' @ join '',\<newline>'' pts @ ''\<newline>];\<newline>'')"
  using assms by (auto simp: txt_to_scad_unfold split: option.splits sum.splits if_splits)

text \<open>
  C9. The text a successful run leaves in the destination depends on the source text, the
  source path and the variable name only: two successful runs with the same three, in
  whatever worlds and to whatever destinations, leave the same text. In particular a
  second run after the first reproduces the file.
\<close>

theorem C9_deterministic_output:
  assumes "files w1 infile = files w2 infile"
    and "txt_to_scad w1 infile varname out1 = (Inr u1, w1')"
    and "txt_to_scad w2 infile varname out2 = (Inr u2, w2')"
  shows "files w1' out1 = files w2' out2"
proof -
  from assms(2) obtain s1 p1 where a1: "files w1 infile = Some s1"
    and b1: "read_points [] (file_lines s1) = Inr p1"
    and c1: "files w1' out1 = Some (''// Auto-generated from '' @ infile @ ''\<newline>'' @ varname
               @ '' = [\<newline>'' @ join '',\<newline>'' p1 @ ''\<newline>];\<newline>'')"
    by (rule txt_to_scad_success)
  from assms(3) obtain s2 p2 where a2: "files w2 infile = Some s2"
    and b2: "read_points [] (file_lines s2) = Inr p2"
    and c2: "files w2' out2 = Some (''// Auto-generated from '' @ infile @ ''\<newline>'' @ varname
               @ '' = [\<newline>'' @ join '',\<newline>'' p2 @ ''\<newline>];\<newline>'')"
    by (rule txt_to_scad_success)
  from assms(1) a1 a2 have "s1 = s2" by simp
  with b1 b2 have "p1 = p2" by simp
  with c1 c2 show ?thesis by simp
qed

theorem C9_deterministic_output_witness:
  "fst (txt_to_scad
        \<lparr>files = [''input.txt'' \<mapsto> ''1 2\<newline>''],
         may_read = (\<lambda>p. True), may_write = (\<lambda>p. True), stdout = [], trace = []\<rparr>
        ''input.txt'' ''pts'' ''out.scad'') = Inr ()
   \<and> fst (txt_to_scad
        (snd (txt_to_scad
           \<lparr>files = [''input.txt'' \<mapsto> ''1 2\<newline>''],
            may_read = (\<lambda>p. True), may_write = (\<lambda>p. True), stdout = [], trace = []\<rparr>
           ''input.txt'' ''pts'' ''out.scad''))
        ''input.txt'' ''pts'' ''out.scad'') = Inr ()
   \<and> files (snd (txt_to_scad
        \<lparr>files = [''input.txt'' \<mapsto> ''1 2\<newline>''],
         may_read = (\<lambda>p. True), may_write = (\<lambda>p. True), stdout = [], trace = []\<rparr>
        ''input.txt'' ''pts'' ''out.scad'')) ''out.scad''
     = files (snd (txt_to_scad
        (snd (txt_to_scad
           \<lparr>files = [''input.txt'' \<mapsto> ''1 2\<newline>''],
            may_read = (\<lambda>p. True), may_write = (\<lambda>p. True), stdout = [], trace = []\<rparr>
           ''input.txt'' ''pts'' ''out.scad''))
        ''input.txt'' ''pts'' ''out.scad'')) ''out.scad''"
  (is "fst (txt_to_scad ?w ?i ?v ?o) = _ \<and> _")
proof -
  let ?w2 = "snd (txt_to_scad ?w ?i ?v ?o)"
  have r: "read_points [] (file_lines ''1 2\<newline>'') = Inr [''    [1.000000, 2.000000]'']"
    by (simp add: eval_defs)
  then have f1: "fst (txt_to_scad ?w ?i ?v ?o) = Inr ()"
    by (simp add: txt_to_scad_unfold)
  then have h1: "txt_to_scad ?w ?i ?v ?o = (Inr (), ?w2)"
    by (simp add: prod_eq_iff)
  from r have s: "files ?w2 ?i = Some ''1 2\<newline>''" and m: "may_read ?w2 ?i" "may_write ?w2 ?o"
    by (simp_all add: txt_to_scad_unfold)
  then have f2: "fst (txt_to_scad ?w2 ?i ?v ?o) = Inr ()"
    using r by (simp add: txt_to_scad_unfold [of ?w2])
  then have h2: "txt_to_scad ?w2 ?i ?v ?o = (Inr (), snd (txt_to_scad ?w2 ?i ?v ?o))"
    by (simp add: prod_eq_iff)
  from s have e: "files ?w ?i = files ?w2 ?i" by simp
  from C9_deterministic_output [OF e h1 h2] f1 f2 show ?thesis by simp
qed

section \<open>Printed components\<close>

lemma isdigit_digit_char: "d < 10 \<Longrightarrow> isdigit (digit_char d)"
  by (simp add: isdigit_def digit_char_def)

lemma digit_val_digit_char: "d < 10 \<Longrightarrow> digit_val (digit_char d) = d"
  by (simp add: digit_val_def digit_char_def)

lemma digits_val_snoc: "digits_val (xs @ [c]) = 10 * digits_val xs + digit_val c"
  by (simp add: digits_val_def)

lemma length_digits_fixed: "length (digits_fixed k n) = k"
  by (induction k arbitrary: n) auto

lemma isdigit_digits_fixed: "list_all isdigit (digits_fixed k n)"
  by (induction k arbitrary: n) (auto simp: isdigit_digit_char)

lemma isdigit_show_nat: "list_all isdigit (show_nat n)"
proof (induction n rule: show_nat.induct)
  case (1 n)
  show ?case
  proof (cases "n < 10")
    case True
    then show ?thesis by (subst show_nat.simps) (simp add: isdigit_digit_char)
  next
    case False
    with 1 show ?thesis by (subst show_nat.simps) (simp add: isdigit_digit_char)
  qed
qed

lemma show_nat_nonempty: "show_nat n \<noteq> []"
  by (subst show_nat.simps) simp

lemma digits_val_show_nat: "digits_val (show_nat n) = n"
proof (induction n rule: show_nat.induct)
  case (1 n)
  show ?case
  proof (cases "n < 10")
    case True
    then show ?thesis
      by (subst show_nat.simps) (simp add: digits_val_def digit_val_digit_char)
  next
    case False
    with 1 show ?thesis
      by (subst show_nat.simps) (simp add: digits_val_snoc digit_val_digit_char)
  qed
qed

lemma digits_val_digits_fixed:
  "digits_val (xs @ digits_fixed k n) = digits_val xs * 10 ^ k + n mod 10 ^ k"
proof (induction k arbitrary: n)
  case 0
  then show ?case by simp
next
  case (Suc k)
  have "digits_val (xs @ digits_fixed (Suc k) n)
      = 10 * digits_val (xs @ digits_fixed k (n div 10)) + n mod 10"
    using digits_val_snoc [of "xs @ digits_fixed k (n div 10)"]
    by (simp add: digit_val_digit_char)
  also have "\<dots> = 10 * (digits_val xs * 10 ^ k + (n div 10) mod 10 ^ k) + n mod 10"
    by (simp add: Suc.IH)
  also have "\<dots> = digits_val xs * 10 ^ Suc k + (10 * ((n div 10) mod 10 ^ k) + n mod 10)"
    by (simp add: algebra_simps)
  also have "10 * ((n div 10) mod 10 ^ k) + n mod 10 = n mod 10 ^ Suc k"
    by (simp add: mod_mult2_eq)
  finally show ?case .
qed

lemma filter_isdigit_id: "list_all isdigit xs \<Longrightarrow> filter isdigit xs = xs"
  by (induction xs) auto

lemma printed_micro_format:
  "printed_micro (format_6f (Finite neg m e)) = scaled6 m e"
proof -
  let ?a = "show_nat (scaled6 m e div 10 ^ 6)"
  let ?b = "digits_fixed 6 (scaled6 m e mod 10 ^ 6)"
  have n1: "\<not> isdigit CHR ''-''" and n2: "\<not> isdigit CHR ''.''"
    by (simp_all add: isdigit_def)
  have "filter isdigit (format_6f (Finite neg m e)) = ?a @ ?b"
    using n1 n2 by (simp add: filter_isdigit_id isdigit_show_nat isdigit_digits_fixed)
  then have "printed_micro (format_6f (Finite neg m e))
      = scaled6 m e div 10 ^ 6 * 10 ^ 6 + scaled6 m e mod 10 ^ 6 mod 10 ^ 6"
    unfolding printed_micro_def using digits_val_digits_fixed [of ?a 6]
    by (simp only: digits_val_show_nat)
  then show ?thesis by simp
qed

lemma six_decimals_format: "six_decimals (format_6f (Finite neg m e))"
proof -
  let ?a = "(if neg then ''-'' else []) @ show_nat (scaled6 m e div 10 ^ 6)"
  let ?b = "digits_fixed 6 (scaled6 m e mod 10 ^ 6)"
  have f: "format_6f (Finite neg m e) = ?a @ CHR ''.'' # ?b" by simp
  have l: "length ?b = 6" by (rule length_digits_fixed)
  have "length (?a @ CHR ''.'' # ?b) = length ?a + 7" using l by simp
  moreover have "(?a @ CHR ''.'' # ?b) ! length ?a = CHR ''.''" by (simp only: nth_append_length)
  moreover have "drop (length ?a + 1) (?a @ CHR ''.'' # ?b) = ?b" by simp
  ultimately show ?thesis
    unfolding six_decimals_def f using isdigit_digits_fixed [of 6 "scaled6 m e mod 10 ^ 6"]
    by simp
qed

lemma sign_format: "(hd (format_6f (Finite neg m e)) = CHR ''-'') = neg"
proof (cases neg)
  case True
  then show ?thesis by simp
next
  case False
  obtain c cs where s: "show_nat (scaled6 m e div 10 ^ 6) = c # cs"
    using show_nat_nonempty by (cases "show_nat (scaled6 m e div 10 ^ 6)") auto
  with isdigit_show_nat [of "scaled6 m e div 10 ^ 6"] have "isdigit c" by simp
  then have "c \<noteq> CHR ''-''" by (auto simp: isdigit_def)
  with False s show ?thesis by simp
qed

lemma rdiv_even_near:
  assumes "0 < b"
  shows "\<bar>real (rdiv_even a b) - real a / real b\<bar> \<le> 1 / 2"
proof -
  let ?q = "a div b" and ?r = "a mod b"
  have a: "real a = real ?q * real b + real ?r"
    by (metis div_mult_mod_eq of_nat_add of_nat_mult)
  have rb: "?r < b" using assms by simp
  have d: "real a / real b = real ?q + real ?r / real b"
    using assms by (simp add: a add_divide_distrib)
  have cases: "rdiv_even a b = ?q \<and> 2 * ?r \<le> b \<or> rdiv_even a b = ?q + 1 \<and> b \<le> 2 * ?r"
    by (auto simp: rdiv_even_def Let_def)
  then show ?thesis
  proof
    assume h: "rdiv_even a b = ?q \<and> 2 * ?r \<le> b"
    then have "2 * real ?r \<le> real b" by (metis of_nat_le_iff of_nat_mult of_nat_numeral)
    then have "real ?r / real b \<le> 1 / 2" using assms by (simp add: field_simps)
    moreover have "0 \<le> real ?r / real b" by simp
    ultimately show ?thesis using h d by simp
  next
    assume h: "rdiv_even a b = ?q + 1 \<and> b \<le> 2 * ?r"
    then have "real b \<le> 2 * real ?r" by (metis of_nat_le_iff of_nat_mult of_nat_numeral)
    then have "1 / 2 \<le> real ?r / real b" using assms by (simp add: field_simps)
    moreover have "real ?r / real b \<le> 1" using rb assms by (simp add: field_simps)
    ultimately show ?thesis using h d by simp
  qed
qed

lemma scaled6_near: "\<bar>real (scaled6 m e) - magnitude m e * 10 ^ 6\<bar> \<le> 1 / 2"
proof (cases "0 \<le> e")
  case True
  then show ?thesis by (simp add: scaled6_def magnitude_def)
next
  case False
  have "\<bar>real (rdiv_even (m * 10 ^ 6) (2 ^ nat (- e))) - real (m * 10 ^ 6) / real (2 ^ nat (- e))\<bar> \<le> 1 / 2"
    by (rule rdiv_even_near) simp
  with False show ?thesis by (simp add: scaled6_def magnitude_def)
qed

lemma rdiv_even_tie:
  assumes "0 < b"
  shows "\<bar>real (rdiv_even a b) - real a / real b\<bar> < 1 / 2
         \<or> (\<bar>real (rdiv_even a b) - real a / real b\<bar> = 1 / 2 \<and> even (rdiv_even a b))"
proof -
  let ?q = "a div b" and ?r = "a mod b"
  have a: "real a = real ?q * real b + real ?r"
    by (metis div_mult_mod_eq of_nat_add of_nat_mult)
  have d: "real a / real b = real ?q + real ?r / real b"
    using assms by (simp add: a add_divide_distrib)
  consider (lo) "2 * ?r < b" | (hi) "b < 2 * ?r" | (tie) "2 * ?r = b"
    by linarith
  then show ?thesis
  proof cases
    case lo
    then have n: "rdiv_even a b = ?q" by (simp add: rdiv_even_def Let_def)
    from lo have "2 * real ?r < real b" by (metis of_nat_less_iff of_nat_mult of_nat_numeral)
    then have "real ?r / real b < 1 / 2" using assms by (simp add: field_simps)
    moreover have "0 \<le> real ?r / real b" by simp
    ultimately show ?thesis using n d by simp
  next
    case hi
    then have n: "rdiv_even a b = ?q + 1" by (simp add: rdiv_even_def Let_def)
    from hi have "real b < 2 * real ?r" by (metis of_nat_less_iff of_nat_mult of_nat_numeral)
    then have "1 / 2 < real ?r / real b" using assms by (simp add: field_simps)
    moreover have "real ?r / real b \<le> 1" using assms by (simp add: field_simps)
    ultimately show ?thesis using n d by simp
  next
    case tie
    then have n: "rdiv_even a b = (if even ?q then ?q else ?q + 1)"
      by (simp add: rdiv_even_def Let_def)
    then have ev: "even (rdiv_even a b)" by simp
    from tie have "2 * real ?r = real b" by (metis of_nat_mult of_nat_numeral)
    then have h: "real ?r / real b = 1 / 2" using assms by (simp add: field_simps)
    have "\<bar>real (rdiv_even a b) - real a / real b\<bar> = 1 / 2"
      using n d h by (cases "even ?q") simp_all
    with ev show ?thesis by simp
  qed
qed

lemma scaled6_tie:
  "\<bar>real (scaled6 m e) - magnitude m e * 10 ^ 6\<bar> < 1 / 2
   \<or> (\<bar>real (scaled6 m e) - magnitude m e * 10 ^ 6\<bar> = 1 / 2 \<and> even (scaled6 m e))"
proof (cases "0 \<le> e")
  case True
  then show ?thesis by (simp add: scaled6_def magnitude_def)
next
  case False
  have "0 < (2::nat) ^ nat (- e)" by simp
  from rdiv_even_tie [OF this, of "m * 10 ^ 6"] False show ?thesis
    by (simp add: scaled6_def magnitude_def)
qed

text \<open>
  C6, as amended. Every component whose parsed value is finite is printed with exactly
  six digits after the point, preceded by a minus sign exactly when the sign bit is set,
  and the number printed is the parsed value rounded to the nearest millionth: it differs
  from the value by at most half a millionth, and where it differs by exactly half a
  millionth (a tie) the last digit printed is even, whether that is the lower neighbour
  (\<^verbatim>\<open>0.0078125\<close> is printed as \<^verbatim>\<open>0.007812\<close>) or the upper one (\<^verbatim>\<open>0.0234375\<close> is
  printed as \<^verbatim>\<open>0.023438\<close>). The token \<^verbatim>\<open>1\<close> is printed as \<^verbatim>\<open>1.000000\<close>. A
  component that parses to an infinity or to not-a-number is printed as \<^verbatim>\<open>inf\<close>,
  \<^verbatim>\<open>-inf\<close> or \<^verbatim>\<open>nan\<close>, without decimal point: so for the tokens \<^verbatim>\<open>inf\<close>,
  \<^verbatim>\<open>-Infinity\<close> and \<^verbatim>\<open>nan\<close>.
\<close>

theorem C6_six_decimals_when_finite:
  "six_decimals (format_6f (Finite neg m e))
   \<and> (hd (format_6f (Finite neg m e)) = CHR ''-'') = neg
   \<and> \<bar>real (printed_micro (format_6f (Finite neg m e))) - magnitude m e * 10 ^ 6\<bar> \<le> 1 / 2
   \<and> (\<bar>real (printed_micro (format_6f (Finite neg m e))) - magnitude m e * 10 ^ 6\<bar> < 1 / 2
        \<or> (\<bar>real (printed_micro (format_6f (Finite neg m e))) - magnitude m e * 10 ^ 6\<bar> = 1 / 2
            \<and> even (printed_micro (format_6f (Finite neg m e)))))
   \<and> map_option format_6f (float ''1'') = Some ''1.000000''
   \<and> map_option format_6f (float ''0.0078125'') = Some ''0.007812''
   \<and> map_option format_6f (float ''0.0234375'') = Some ''0.023438''
   \<and> format_6f (Infinity inf_neg) = (if inf_neg then ''-inf'' else ''inf'')
   \<and> \<not> six_decimals (format_6f (Infinity inf_neg))
   \<and> format_6f NaN = ''nan''
   \<and> \<not> six_decimals (format_6f NaN)
   \<and> float ''inf'' = Some (Infinity False)
   \<and> float ''-Infinity'' = Some (Infinity True)
   \<and> float ''nan'' = Some NaN
   \<and> loop_body ''-Infinity nan\<newline>'' = Inr (Some ''    [-inf, nan]'')"
proof -
  have "map_option format_6f (float ''1'') = Some ''1.000000''"
    by (simp add: eval_defs)
  moreover have "map_option format_6f (float ''0.0078125'') = Some ''0.007812''"
    by (simp add: eval_defs)
  moreover have "map_option format_6f (float ''0.0234375'') = Some ''0.023438''"
    by (simp add: eval_defs)
  moreover have "\<not> six_decimals (format_6f (Infinity inf_neg))" "\<not> six_decimals (format_6f NaN)"
    by (simp_all add: six_decimals_def)
  moreover have "float ''inf'' = Some (Infinity False)" "float ''-Infinity'' = Some (Infinity True)"
    "float ''nan'' = Some NaN"
    by code_simp+
  moreover have "loop_body ''-Infinity nan\<newline>'' = Inr (Some ''    [-inf, nan]'')"
    by code_simp
  moreover have "format_6f (Infinity inf_neg) = (if inf_neg then ''-inf'' else ''inf'')"
    "format_6f NaN = ''nan''"
    by simp_all
  ultimately show ?thesis
    using six_decimals_format [of neg m e] sign_format [of neg m e] scaled6_near [of m e]
      scaled6_tie [of m e]
    by (simp only: printed_micro_format simp_thms)
qed

text \<open>
  The claim as stated fails on a component that parses to an infinity or to not-a-number:
  the line \<^verbatim>\<open>inf 1\<close> is kept, parses, and is emitted with the component \<^verbatim>\<open>inf\<close>,
  which has no decimal point; so is \<^verbatim>\<open>nan\<close>.
\<close>

theorem C6_counterexample:
  "loop_body ''inf 1\<newline>'' = Inr (Some ''    [inf, 1.000000]'')
   \<and> float ''inf'' = Some (Infinity False) \<and> format_6f (Infinity False) = ''inf''
   \<and> \<not> six_decimals ''inf''
   \<and> map_option format_6f (float ''nan'') = Some ''nan'' \<and> \<not> six_decimals ''nan''"
proof -
  have "loop_body ''inf 1\<newline>'' = Inr (Some ''    [inf, 1.000000]'')"
    by (simp add: eval_defs)
  moreover have "float ''inf'' = Some (Infinity False)"
    by (simp add: eval_defs)
  moreover have "\<not> six_decimals ''inf''" "\<not> six_decimals ''nan''"
    by (simp_all add: six_decimals_def)
  moreover have "map_option format_6f (float ''nan'') = Some ''nan''"
    by (simp add: eval_defs)
  ultimately show ?thesis by simp
qed

end
